theory Spec2Isabelle
  imports Complex_Main "HOL-Library.Multiset"
begin

section \<open>Corner ordering\<close>

text \<open>
  Coordinates are the source's \<open>float32\<close> values read as real numbers: rounding, infinities
  and NaN are left out. A point is a row \<open>[x, y]\<close> of a \<open>(n, 2)\<close> array, and such an array is
  the list of its rows.
\<close>

type_synonym point = "real \<times> real"

datatype py_error = ValueError

text \<open>
  \<open>np.argmin\<close> and \<open>np.argmax\<close>: the index of the first occurrence of the extreme value;
  on an empty array numpy raises \<open>ValueError\<close>, which is \<open>None\<close> here.
\<close>

fun np_argmin :: "real list \<Rightarrow> nat option" where
  "np_argmin [] = None"
| "np_argmin (x # xs) =
     (case np_argmin xs of
        None \<Rightarrow> Some 0
      | Some j \<Rightarrow> if x \<le> xs ! j then Some 0 else Some (Suc j))"

fun np_argmax :: "real list \<Rightarrow> nat option" where
  "np_argmax [] = None"
| "np_argmax (x # xs) =
     (case np_argmax xs of
        None \<Rightarrow> Some 0
      | Some j \<Rightarrow> if xs ! j \<le> x then Some 0 else Some (Suc j))"

text \<open>\<open>pts.sum(axis=1)\<close> is \<open>x + y\<close> of each row, \<open>np.diff(pts, axis=1)\<close> is \<open>y - x\<close>.\<close>

definition coord_sum :: "point \<Rightarrow> real" where
  "coord_sum p = fst p + snd p"

definition coord_diff :: "point \<Rightarrow> real" where
  "coord_diff p = snd p - fst p"

type_synonym rect = "point \<times> point \<times> point \<times> point"

text \<open>The result is the array \<open>rect\<close> as the tuple \<open>(rect[0], rect[1], rect[2], rect[3])\<close>.\<close>

definition order_points :: "point list \<Rightarrow> py_error + rect" where
  "order_points pts =
     (let s = map coord_sum pts;
          diff = map coord_diff pts
      in case (np_argmin s, np_argmax s, np_argmin diff, np_argmax diff) of
           (Some i0, Some i2, Some i1, Some i3) \<Rightarrow> Inr (pts ! i0, pts ! i1, pts ! i2, pts ! i3)
         | _ \<Rightarrow> Inl ValueError)"

section \<open>Target rectangle of the perspective transform\<close>

text \<open>\<open>int(x)\<close> on a float truncates towards zero.\<close>

definition py_int :: "real \<Rightarrow> int" where
  "py_int x = (if 0 \<le> x then \<lfloor>x\<rfloor> else \<lceil>x\<rceil>)"

text \<open>Lines 37 to 44 of \<open>four_point_transform\<close>: the size \<open>(maxWidth, maxHeight)\<close>.\<close>

definition target_size :: "rect \<Rightarrow> int \<times> int" where
  "target_size r =
     (case r of (tl', tr', br', bl') \<Rightarrow>
        let widthA = sqrt ((fst br' - fst bl')\<^sup>2 + (snd br' - snd bl')\<^sup>2);
            widthB = sqrt ((fst tr' - fst tl')\<^sup>2 + (snd tr' - snd tl')\<^sup>2);
            maxWidth = max (py_int widthA) (py_int widthB);
            heightA = sqrt ((fst tr' - fst br')\<^sup>2 + (snd tr' - snd br')\<^sup>2);
            heightB = sqrt ((fst tl' - fst bl')\<^sup>2 + (snd tl' - snd bl')\<^sup>2);
            maxHeight = max (py_int heightA) (py_int heightB)
        in (maxWidth, maxHeight))"

text \<open>Lines 47 to 52: the destination corners \<open>dst\<close>.\<close>

definition dst_rect :: "int \<Rightarrow> int \<Rightarrow> rect" where
  "dst_rect maxWidth maxHeight =
     ((0, 0),
      (of_int (maxWidth - 1), 0),
      (of_int (maxWidth - 1), of_int (maxHeight - 1)),
      (0, of_int (maxHeight - 1)))"

section \<open>Pixel buffers and arrays\<close>

text \<open>
  A pixel buffer is the list of its rows. The store is the list of the buffers allocated so
  far, a buffer's address being its index; nothing is ever freed. An \<open>ndarray\<close> is a view:
  the address of its buffer and the window of rows and columns it shows. Slicing makes a view on
  the same buffer, \<open>copy\<close> and every \<open>cv2\<close> call a new buffer.
\<close>

type_synonym 'px buffer = "'px list list"

type_synonym 'px store = "'px buffer list"

record ndarray =
  base :: nat
  row0 :: nat
  row1 :: nat
  col0 :: nat
  col1 :: nat

text \<open>The width of a buffer is the length of its rows (of the longest, should they differ).\<close>

fun buffer_width :: "'px buffer \<Rightarrow> nat" where
  "buffer_width [] = 0"
| "buffer_width (r # rs) = max (length r) (buffer_width rs)"

definition read :: "'px store \<Rightarrow> ndarray \<Rightarrow> 'px buffer" where
  "read s a =
     map (\<lambda>r. take (col1 a - col0 a) (drop (col0 a) r))
       (take (row1 a - row0 a) (drop (row0 a) (s ! base a)))"

text \<open>A new array shows the whole of its buffer.\<close>

definition fresh_array :: "nat \<Rightarrow> 'px buffer \<Rightarrow> ndarray" where
  "fresh_array n b = \<lparr>base = n, row0 = 0, row1 = length b, col0 = 0, col1 = buffer_width b\<rparr>"

definition alloc :: "'px buffer \<Rightarrow> 'px store \<Rightarrow> ndarray \<times> 'px store" where
  "alloc b s = (fresh_array (length s) b, s @ [b])"

text \<open>\<open>image.shape[:2]\<close>, as \<open>(h, w)\<close>.\<close>

definition shape :: "ndarray \<Rightarrow> int \<times> int" where
  "shape a = (int (row1 a - row0 a), int (col1 a - col0 a))"

text \<open>\<open>a.copy()\<close>: a new buffer with the pixels that \<open>a\<close> shows, in the shape of \<open>a\<close>.\<close>

definition np_copy :: "ndarray \<Rightarrow> 'px store \<Rightarrow> ndarray \<times> 'px store" where
  "np_copy a s =
     (\<lparr>base = length s, row0 = 0, row1 = row1 a - row0 a, col0 = 0, col1 = col1 a - col0 a\<rparr>,
      s @ [read s a])"

text \<open>
  The bounds of the slice \<open>[start:stop]\<close> of an axis of length \<open>n\<close>: a negative index counts
  from the end, and both are clipped to the axis.
\<close>

definition slice_bounds :: "nat \<Rightarrow> int \<Rightarrow> int \<Rightarrow> nat \<times> nat" where
  "slice_bounds n start stop =
     (let clip = (\<lambda>i. if i < 0 then max 0 (int n + i) else min (int n) i);
          lo = nat (clip start);
          hi = nat (clip stop)
      in (lo, max lo hi))"

text \<open>\<open>a[r0:r1, c0:c1]\<close>: a view on the buffer of \<open>a\<close>.\<close>

definition np_slice :: "ndarray \<Rightarrow> int \<Rightarrow> int \<Rightarrow> int \<Rightarrow> int \<Rightarrow> ndarray" where
  "np_slice a r0 r1 c0 c1 =
     (let (rlo, rhi) = slice_bounds (row1 a - row0 a) r0 r1;
          (clo, chi) = slice_bounds (col1 a - col0 a) c0 c1
      in a\<lparr>row0 := row0 a + rlo, row1 := row0 a + rhi,
            col0 := col0 a + clo, col1 := col0 a + chi\<rparr>)"

section \<open>The vision library\<close>

text \<open>
  The functions of \<open>cv2\<close> that the pipeline calls are parameters of the model, with the
  arguments the source gives them: \<open>'px\<close> is the pixel, \<open>'c\<close> the contour and \<open>'m\<close> the
  transform matrix. Flags that the source never varies are part of the field
  (\<open>ADAPTIVE_THRESH_GAUSSIAN_C\<close> and \<open>THRESH_BINARY\<close> for \<open>adaptiveThreshold\<close>,
  \<open>RETR_EXTERNAL\<close> and \<open>CHAIN_APPROX_SIMPLE\<close> for \<open>findContours\<close>), and a kernel
  \<open>np.ones((3, 3))\<close> is given by its shape. A call returns a new array and raises nothing.
\<close>

datatype color_code = COLOR_BGR2GRAY | COLOR_GRAY2BGR

datatype morph_op = MORPH_CLOSE | MORPH_OPEN

record ('px, 'c, 'm) cv2 =
  cvtColor :: "'px buffer \<Rightarrow> color_code \<Rightarrow> 'px buffer"
  GaussianBlur :: "'px buffer \<Rightarrow> nat \<times> nat \<Rightarrow> real \<Rightarrow> 'px buffer"
  adaptiveThreshold :: "'px buffer \<Rightarrow> real \<Rightarrow> nat \<Rightarrow> real \<Rightarrow> 'px buffer"
  morphologyEx :: "'px buffer \<Rightarrow> morph_op \<Rightarrow> nat \<times> nat \<Rightarrow> 'px buffer"
  Canny :: "'px buffer \<Rightarrow> real \<Rightarrow> real \<Rightarrow> nat \<Rightarrow> 'px buffer"
  dilate :: "'px buffer \<Rightarrow> nat \<times> nat \<Rightarrow> nat \<Rightarrow> 'px buffer"
  findContours :: "'px buffer \<Rightarrow> 'c list"
  contourArea :: "'c \<Rightarrow> real"
  arcLength :: "'c \<Rightarrow> bool \<Rightarrow> real"
  approxPolyDP :: "'c \<Rightarrow> real \<Rightarrow> bool \<Rightarrow> point list"
  bilateralFilter :: "'px buffer \<Rightarrow> nat \<Rightarrow> real \<Rightarrow> real \<Rightarrow> 'px buffer"
  HoughLines :: "'px buffer \<Rightarrow> real \<Rightarrow> real \<Rightarrow> nat \<Rightarrow> (real \<times> real) list option"
  getPerspectiveTransform :: "rect \<Rightarrow> rect \<Rightarrow> 'm"
  warpPerspective :: "'px buffer \<Rightarrow> 'm \<Rightarrow> int \<times> int \<Rightarrow> 'px buffer"
  clahe_apply :: "real \<Rightarrow> nat \<times> nat \<Rightarrow> 'px buffer \<Rightarrow> 'px buffer"

text \<open>A library call on an array: the function of the pixels, its result in a new buffer.\<close>

definition cv_call ::
  "('px buffer \<Rightarrow> 'px buffer) \<Rightarrow> ndarray \<Rightarrow> 'px store \<Rightarrow> ndarray \<times> 'px store" where
  "cv_call f a s = alloc (f (read s a)) s"

section \<open>The pipeline\<close>

definition four_point_transform ::
  "('px, 'c, 'm) cv2 \<Rightarrow> ndarray \<Rightarrow> point list \<Rightarrow> 'px store
     \<Rightarrow> py_error + (ndarray \<times> 'px store)" where
  "four_point_transform cv img pts s =
     (case order_points pts of
        Inl e \<Rightarrow> Inl e
      | Inr rect \<Rightarrow>
          let (maxWidth, maxHeight) = target_size rect;
              dst = dst_rect maxWidth maxHeight;
              M = getPerspectiveTransform cv rect dst
          in Inr (cv_call (\<lambda>b. warpPerspective cv b M (maxWidth, maxHeight)) img s))"

text \<open>
  \<open>sorted(contours, key=cv2.contourArea, reverse=True)\<close>: descending by area, contours of
  equal area keeping their order (the sort is stable, also when reversed).
\<close>

definition sort_contours :: "('px, 'c, 'm) cv2 \<Rightarrow> 'c list \<Rightarrow> 'c list" where
  "sort_contours cv contours = sort_key (\<lambda>c. - contourArea cv c) contours"

text \<open>The loop of lines 92 to 101; \<open>None\<close> is \<open>document_contour is None\<close>.\<close>

fun find_document_contour :: "('px, 'c, 'm) cv2 \<Rightarrow> 'c list \<Rightarrow> point list option" where
  "find_document_contour cv [] = None"
| "find_document_contour cv (contour # contours) =
     (let epsilon = 0.02 * arcLength cv contour True;
          approx = approxPolyDP cv contour epsilon True
      in if length approx = 4 \<and> contourArea cv contour > 10000 then Some approx
         else find_document_contour cv contours)"

text \<open>Lines 62 to 101 of \<open>detect_document_edges\<close>: \<open>original\<close> and \<open>document_contour\<close>.\<close>

definition contour_search ::
  "('px, 'c, 'm) cv2 \<Rightarrow> ndarray \<Rightarrow> 'px store \<Rightarrow> (ndarray \<times> point list option) \<times> 'px store" where
  "contour_search cv img s0 =
     (let (original, s1) = np_copy img s0;
          (gray, s2) = cv_call (\<lambda>b. cvtColor cv b COLOR_BGR2GRAY) img s1;
          (blurred, s3) = cv_call (\<lambda>b. GaussianBlur cv b (5, 5) 0) gray s2;
          (thresh, s4) = cv_call (\<lambda>b. adaptiveThreshold cv b 255 11 2) blurred s3;
          (thresh, s5) = cv_call (\<lambda>b. morphologyEx cv b MORPH_CLOSE (3, 3)) thresh s4;
          (thresh, s6) = cv_call (\<lambda>b. morphologyEx cv b MORPH_OPEN (3, 3)) thresh s5;
          (edges, s7) = cv_call (\<lambda>b. Canny cv b 50 150 3) thresh s6;
          (edges, s8) = cv_call (\<lambda>b. dilate cv b (3, 3) 1) edges s7;
          contours = findContours cv (read s8 edges);
          contours = sort_contours cv contours
      in ((original, find_document_contour cv contours), s8))"

text \<open>Lines 113 to 123 of \<open>detect_document_edges_alternative\<close>: \<open>original\<close> and \<open>lines\<close>.\<close>

definition line_search ::
  "('px, 'c, 'm) cv2 \<Rightarrow> ndarray \<Rightarrow> 'px store
     \<Rightarrow> (ndarray \<times> (real \<times> real) list option) \<times> 'px store" where
  "line_search cv img s0 =
     (let (original, s1) = np_copy img s0;
          (gray, s2) = cv_call (\<lambda>b. cvtColor cv b COLOR_BGR2GRAY) img s1;
          (filtered, s3) = cv_call (\<lambda>b. bilateralFilter cv b 9 75 75) gray s2;
          (edges, s4) = cv_call (\<lambda>b. Canny cv b 50 150 3) filtered s3
      in ((original, HoughLines cv (read s4 edges) 1 (pi / 180) 100), s4))"

text \<open>The corners \<open>[[p, p], [w - p, p], [w - p, h - p], [p, h - p]]\<close> of both fallbacks.\<close>

definition padded_corners :: "int \<Rightarrow> int \<Rightarrow> int \<Rightarrow> point list" where
  "padded_corners h w padding =
     [(of_int padding, of_int padding),
      (of_int (w - padding), of_int padding),
      (of_int (w - padding), of_int (h - padding)),
      (of_int padding, of_int (h - padding))]"

definition detect_document_edges_alternative ::
  "('px, 'c, 'm) cv2 \<Rightarrow> ndarray \<Rightarrow> 'px store
     \<Rightarrow> py_error + ((ndarray \<times> point list) \<times> 'px store)" where
  "detect_document_edges_alternative cv img s0 =
     (let ((original, lines), s) = line_search cv img s0
      in if (case lines of None \<Rightarrow> False | Some ls \<Rightarrow> length ls \<ge> 4) then
           let (h, w) = shape img;
               padding = min h w div 20;
               corners = padded_corners h w padding
           in case four_point_transform cv original corners s of
                Inl e \<Rightarrow> Inl e
              | Inr (warped, s') \<Rightarrow> Inr ((warped, corners), s')
         else
           let (h, w) = shape img;
               padding = min h w div 40;
               cropped = np_slice img padding (h - padding) padding (w - padding);
               corners = padded_corners h w padding
           in Inr ((cropped, corners), s))"

definition detect_document_edges ::
  "('px, 'c, 'm) cv2 \<Rightarrow> ndarray \<Rightarrow> 'px store
     \<Rightarrow> py_error + ((ndarray \<times> point list) \<times> 'px store)" where
  "detect_document_edges cv img s0 =
     (let ((original, document_contour), s) = contour_search cv img s0
      in case document_contour of
           Some approx \<Rightarrow>
             (case four_point_transform cv original approx s of
                Inl e \<Rightarrow> Inl e
              | Inr (warped, s') \<Rightarrow> Inr ((warped, approx), s'))
         | None \<Rightarrow> detect_document_edges_alternative cv original s)"

definition enhance_document ::
  "('px, 'c, 'm) cv2 \<Rightarrow> ndarray \<Rightarrow> 'px store \<Rightarrow> ndarray \<times> 'px store" where
  "enhance_document cv img s0 =
     (let (gray, s1) = cv_call (\<lambda>b. cvtColor cv b COLOR_BGR2GRAY) img s0;
          (enhanced, s2) = cv_call (clahe_apply cv 2.0 (8, 8)) gray s1;
          (filtered, s3) = cv_call (\<lambda>b. bilateralFilter cv b 9 75 75) enhanced s2;
          (result, s4) = cv_call (\<lambda>b. cvtColor cv b COLOR_GRAY2BGR) filtered s3
      in (result, s4))"

section \<open>Vocabulary of the properties\<close>

definition is_least :: "(point \<Rightarrow> real) \<Rightarrow> point list \<Rightarrow> point \<Rightarrow> bool" where
  "is_least f pts p \<longleftrightarrow> p \<in> set pts \<and> (\<forall>q \<in> set pts. f p \<le> f q)"

definition is_greatest :: "(point \<Rightarrow> real) \<Rightarrow> point list \<Rightarrow> point \<Rightarrow> bool" where
  "is_greatest f pts p \<longleftrightarrow> p \<in> set pts \<and> (\<forall>q \<in> set pts. f q \<le> f p)"

text \<open>
  The branch of the source that produces the result of \<open>detect_document_edges\<close>, under the
  names the specification gives the three tiers: a contour was accepted, or else at least four
  Hough lines were found, or else neither.
\<close>

datatype source_method = ContourMatch | LineEstimate | PaddedFallback

definition source_method ::
  "('px, 'c, 'm) cv2 \<Rightarrow> ndarray \<Rightarrow> 'px store \<Rightarrow> source_method" where
  "source_method cv img s0 =
     (let ((original, document_contour), s) = contour_search cv img s0
      in case document_contour of
           Some approx \<Rightarrow> ContourMatch
         | None \<Rightarrow>
             (case fst (line_search cv original s) of
                (original', Some ls) \<Rightarrow> if length ls \<ge> 4 then LineEstimate else PaddedFallback
              | (original', None) \<Rightarrow> PaddedFallback))"

text \<open>
  The contract of \<open>cv2.warpPerspective\<close> for its \<open>dsize\<close> argument: the output has
  \<open>dsize = (width, height)\<close> when both are positive.
\<close>

definition honours_dsize :: "('px, 'c, 'm) cv2 \<Rightarrow> bool" where
  "honours_dsize cv \<longleftrightarrow>
     (\<forall>b M w h. 0 < w \<and> 0 < h \<longrightarrow>
        length (warpPerspective cv b M (w, h)) = nat h \<and>
        buffer_width (warpPerspective cv b M (w, h)) = nat w)"

text \<open>
  The approximation the loop of \<open>detect_document_edges\<close> makes of a contour, and the
  contours it accepts.
\<close>

definition approx_of :: "('px, 'c, 'm) cv2 \<Rightarrow> 'c \<Rightarrow> point list" where
  "approx_of cv c = approxPolyDP cv c (0.02 * arcLength cv c True) True"

definition qualifies :: "('px, 'c, 'm) cv2 \<Rightarrow> 'c \<Rightarrow> bool" where
  "qualifies cv c \<longleftrightarrow> length (approx_of cv c) = 4 \<and> contourArea cv c > 10000"

text \<open>
  Four points in the order given are the corners of a strictly convex quadrilateral when the
  boundary turns the same way at each of them; such points are distinct and no three of them
  are collinear.
\<close>

definition turn :: "point \<Rightarrow> point \<Rightarrow> point \<Rightarrow> real" where
  "turn a b c = (fst b - fst a) * (snd c - snd b) - (snd b - snd a) * (fst c - fst b)"

definition convex_quad :: "point list \<Rightarrow> bool" where
  "convex_quad pts =
     (case pts of
        [a, b, c, d] \<Rightarrow>
          (0 < turn a b c \<and> 0 < turn b c d \<and> 0 < turn c d a \<and> 0 < turn d a b) \<or>
          (turn a b c < 0 \<and> turn b c d < 0 \<and> turn c d a < 0 \<and> turn d a b < 0)
      | _ \<Rightarrow> False)"

text \<open>What the caller of \<open>detect_document_edges\<close> receives: the pixels of the image and the corners.\<close>

definition returned ::
  "('px, 'c, 'm) cv2 \<Rightarrow> ndarray \<Rightarrow> 'px store \<Rightarrow> ('px buffer \<times> point list) option" where
  "returned cv img s =
     (case detect_document_edges cv img s of
        Inl e \<Rightarrow> None
      | Inr ((res, corners), s') \<Rightarrow> Some (read s' res, corners))"

section \<open>A small instance of the library\<close>

text \<open>
  An instance to run the pipeline on: pixels are grey levels, the filters return their input,
  a contour is the list of its vertices with the shoelace area and the closed perimeter, and
  is its own approximation. \<open>findContours\<close> and \<open>HoughLines\<close> are given by the caller.
  \<open>warpPerspective\<close> returns a black canvas of the size asked for, and of the size of the
  input when \<open>dsize\<close> is empty.
\<close>

fun shoelace :: "point \<Rightarrow> point list \<Rightarrow> real" where
  "shoelace p0 [] = 0"
| "shoelace p0 [p] = fst p * snd p0 - fst p0 * snd p"
| "shoelace p0 (p # q # ps) = fst p * snd q - fst q * snd p + shoelace p0 (q # ps)"

definition polygon_area :: "point list \<Rightarrow> real" where
  "polygon_area c = (case c of [] \<Rightarrow> 0 | p0 # _ \<Rightarrow> \<bar>shoelace p0 c\<bar> / 2)"

fun path_length :: "point \<Rightarrow> point list \<Rightarrow> real" where
  "path_length p0 [] = 0"
| "path_length p0 [p] = sqrt ((fst p0 - fst p)\<^sup>2 + (snd p0 - snd p)\<^sup>2)"
| "path_length p0 (p # q # ps) =
     sqrt ((fst q - fst p)\<^sup>2 + (snd q - snd p)\<^sup>2) + path_length p0 (q # ps)"

definition canvas :: "nat \<Rightarrow> nat \<Rightarrow> nat buffer" where
  "canvas h w = replicate h (replicate w 0)"

definition toy_cv2 ::
  "(nat buffer \<Rightarrow> point list list) \<Rightarrow> (nat buffer \<Rightarrow> (real \<times> real) list option)
     \<Rightarrow> (nat, point list, rect \<times> rect) cv2" where
  "toy_cv2 contours_of lines_of =
     \<lparr>cvtColor = (\<lambda>b code. b),
      GaussianBlur = (\<lambda>b ksize sigma. b),
      adaptiveThreshold = (\<lambda>b maxValue blockSize C. b),
      morphologyEx = (\<lambda>b op kernel. b),
      Canny = (\<lambda>b lo hi aperture. b),
      dilate = (\<lambda>b kernel iterations. b),
      findContours = contours_of,
      contourArea = polygon_area,
      arcLength = (\<lambda>c closed. case c of [] \<Rightarrow> 0 | p0 # _ \<Rightarrow> path_length p0 c),
      approxPolyDP = (\<lambda>c epsilon closed. c),
      bilateralFilter = (\<lambda>b d sigmaColor sigmaSpace. b),
      HoughLines = (\<lambda>b rho theta threshold. lines_of b),
      getPerspectiveTransform = (\<lambda>src dst. (src, dst)),
      warpPerspective = (\<lambda>b M dsize.
        if fst dsize \<le> 0 \<or> snd dsize \<le> 0 then canvas (length b) (buffer_width b)
        else canvas (nat (snd dsize)) (nat (fst dsize))),
      clahe_apply = (\<lambda>clipLimit tileGridSize b. b)\<rparr>"



section \<open>Properties of the corner ordering\<close>


lemma np_argmin_Some:
  "xs \<noteq> [] \<Longrightarrow> \<exists>i. np_argmin xs = Some i"
  by (cases xs) (auto split: option.splits)

lemma np_argmax_Some:
  "xs \<noteq> [] \<Longrightarrow> \<exists>i. np_argmax xs = Some i"
  by (cases xs) (auto split: option.splits)

lemma np_argmin_least:
  "np_argmin xs = Some i \<Longrightarrow> i < length xs \<and> (\<forall>y \<in> set xs. xs ! i \<le> y)"
proof (induction xs arbitrary: i)
  case Nil
  then show ?case by simp
next
  case (Cons x xs)
  show ?case
  proof (cases "np_argmin xs")
    case None
    then have "xs = []" using np_argmin_Some by fastforce
    with Cons.prems show ?thesis by simp
  next
    case (Some j)
    with Cons.IH have j: "j < length xs" "\<forall>y \<in> set xs. xs ! j \<le> y" by auto
    show ?thesis
    proof (cases "x \<le> xs ! j")
      case True
      with Some Cons.prems have "i = 0" by simp
      with True j show ?thesis by fastforce
    next
      case False
      with Some Cons.prems have "i = Suc j" by simp
      with False j show ?thesis by auto
    qed
  qed
qed

lemma np_argmax_greatest:
  "np_argmax xs = Some i \<Longrightarrow> i < length xs \<and> (\<forall>y \<in> set xs. y \<le> xs ! i)"
proof (induction xs arbitrary: i)
  case Nil
  then show ?case by simp
next
  case (Cons x xs)
  show ?case
  proof (cases "np_argmax xs")
    case None
    then have "xs = []" using np_argmax_Some by fastforce
    with Cons.prems show ?thesis by simp
  next
    case (Some j)
    with Cons.IH have j: "j < length xs" "\<forall>y \<in> set xs. y \<le> xs ! j" by auto
    show ?thesis
    proof (cases "xs ! j \<le> x")
      case True
      with Some Cons.prems have "i = 0" by simp
      with True j show ?thesis by fastforce
    next
      case False
      with Some Cons.prems have "i = Suc j" by simp
      with False j show ?thesis by auto
    qed
  qed
qed


lemma argmin_map_least:
  assumes "np_argmin (map f pts) = Some i"
  shows "is_least f pts (pts ! i)"
  using np_argmin_least [OF assms] by (auto simp: is_least_def)

lemma argmax_map_greatest:
  assumes "np_argmax (map f pts) = Some i"
  shows "is_greatest f pts (pts ! i)"
  using np_argmax_greatest [OF assms] by (auto simp: is_greatest_def)

text \<open>
  On a non-empty array \<open>order_points\<close> returns four of its rows: the first with the least
  \<open>x + y\<close>, the first with the least \<open>y - x\<close>, the first with the greatest \<open>x + y\<close> and the
  first with the greatest \<open>y - x\<close>.
\<close>

lemma order_points_extremes:
  assumes "pts \<noteq> []"
  shows "\<exists>p0 p1 p2 p3. order_points pts = Inr (p0, p1, p2, p3)
           \<and> is_least coord_sum pts p0 \<and> is_least coord_diff pts p1
           \<and> is_greatest coord_sum pts p2 \<and> is_greatest coord_diff pts p3"
proof -
  from assms obtain i0 where i0: "np_argmin (map coord_sum pts) = Some i0"
    using np_argmin_Some [of "map coord_sum pts"] by auto
  from assms obtain i2 where i2: "np_argmax (map coord_sum pts) = Some i2"
    using np_argmax_Some [of "map coord_sum pts"] by auto
  from assms obtain i1 where i1: "np_argmin (map coord_diff pts) = Some i1"
    using np_argmin_Some [of "map coord_diff pts"] by auto
  from assms obtain i3 where i3: "np_argmax (map coord_diff pts) = Some i3"
    using np_argmax_Some [of "map coord_diff pts"] by auto
  have "order_points pts = Inr (pts ! i0, pts ! i1, pts ! i2, pts ! i3)"
    by (simp add: order_points_def i0 i1 i2 i3)
  with argmin_map_least [OF i0] argmin_map_least [OF i1]
       argmax_map_greatest [OF i2] argmax_map_greatest [OF i3]
  show ?thesis by blast
qed

lemma is_least_cong: "set pts' = set pts \<Longrightarrow> is_least f pts' p = is_least f pts p"
  by (simp add: is_least_def)

lemma is_greatest_cong: "set pts' = set pts \<Longrightarrow> is_greatest f pts' p = is_greatest f pts p"
  by (simp add: is_greatest_def)

text \<open>
  C1, as stated, fails. The four corners of the specification's own end-to-end scenario form a
  convex quadrilateral, and \<open>order_points\<close> puts \<open>(900, 80)\<close> in the slot \<open>tr\<close>: its \<open>x - y\<close> is
  820, the greatest of the four and not the least. The difference the source takes is
  \<open>np.diff(pts, axis=1)\<close>, which is \<open>y - x\<close>.
\<close>

theorem order_points_xy_difference_counterexample:
  "convex_quad [(100, 50), (900, 80), (880, 750), (120, 720)] \<and>
   distinct [(100, 50), (900, 80), (880, 750), (120, 720) :: point] \<and>
   order_points [(100, 50), (900, 80), (880, 750), (120, 720)]
     = Inr ((100, 50), (900, 80), (880, 750), (120, 720)) \<and>
   \<not> is_least (\<lambda>p. fst p - snd p) [(100, 50), (900, 80), (880, 750), (120, 720)] (900, 80)"
  by (simp add: convex_quad_def turn_def order_points_def coord_sum_def coord_diff_def
      is_least_def)

text \<open>
  C1, amended: for any four points (so for four distinct, non-collinear points that form a
  convex quadrilateral) and every rotation or reflection \<open>pts'\<close> of their order,
  \<open>order_points pts'\<close> returns \<open>(tl, tr, br, bl)\<close> where, among the four points, \<open>tl\<close> has the
  least \<open>x + y\<close>, \<open>br\<close> the greatest \<open>x + y\<close>, \<open>tr\<close> the least \<open>y - x\<close> and \<open>bl\<close> the greatest
  \<open>y - x\<close>.
\<close>

theorem order_points_extremes_any_order:
  assumes "length pts = 4"
    and "pts' = rotate k pts \<or> pts' = rotate k (rev pts)"
  shows "\<exists>tl' tr' br' bl'. order_points pts' = Inr (tl', tr', br', bl')
           \<and> is_least coord_sum pts tl' \<and> is_greatest coord_sum pts br'
           \<and> is_least coord_diff pts tr' \<and> is_greatest coord_diff pts bl'"
proof -
  from assms have "length pts' = 4" by auto
  then have ne: "pts' \<noteq> []" by auto
  from assms have st: "set pts' = set pts" by auto
  from order_points_extremes [OF ne] show ?thesis
    by (simp add: is_least_cong [OF st] is_greatest_cong [OF st]) blast
qed

theorem order_points_extremes_any_order_witness:
  "length [(0, 0), (4, 1), (5, 6), (1, 5) :: point] = 4 \<and>
   (\<exists>tl' tr' br' bl'. order_points [(4, 1), (5, 6), (1, 5), (0, 0)] = Inr (tl', tr', br', bl')
      \<and> is_least coord_sum [(0, 0), (4, 1), (5, 6), (1, 5)] tl'
      \<and> is_greatest coord_sum [(0, 0), (4, 1), (5, 6), (1, 5)] br'
      \<and> is_least coord_diff [(0, 0), (4, 1), (5, 6), (1, 5)] tr'
      \<and> is_greatest coord_diff [(0, 0), (4, 1), (5, 6), (1, 5)] bl')"
proof -
  have r: "[(4, 1), (5, 6), (1, 5), (0, 0)] = rotate 1 [(0, 0), (4, 1), (5, 6), (1, 5) :: point]"
    by simp
  have l: "length [(0, 0), (4, 1), (5, 6), (1, 5) :: point] = 4" by simp
  from order_points_extremes_any_order [OF l disjI1 [OF r]] l show ?thesis by blast
qed

text \<open>
  C10: on the square \<open>(5, 0), (10, 5), (5, 10), (0, 5)\<close>, four distinct points,
  \<open>order_points\<close> returns \<open>(5, 0)\<close> in the slots \<open>tl\<close> and \<open>tr\<close> (this point is the first with
  the least \<open>x + y\<close> and the first with the least \<open>y - x\<close>) and never returns \<open>(0, 5)\<close>: its
  output is no permutation of its input.
\<close>

theorem order_points_not_permutation:
  "distinct [(5, 0), (10, 5), (5, 10), (0, 5) :: point] \<and>
   order_points [(5, 0), (10, 5), (5, 10), (0, 5)] = Inr ((5, 0), (5, 0), (10, 5), (5, 10)) \<and>
   (0, 5) \<notin> set [(5, 0), (5, 0), (10, 5), (5, 10) :: point] \<and>
   coord_sum (5, 0) = 5 \<and> coord_sum (10, 5) = 15 \<and> coord_sum (5, 10) = 15 \<and>
   coord_sum (0, 5) = 5 \<and>
   coord_diff (5, 0) = - 5 \<and> coord_diff (10, 5) = - 5 \<and> coord_diff (5, 10) = 5 \<and>
   coord_diff (0, 5) = 5"
  by (simp add: order_points_def coord_sum_def coord_diff_def)

section \<open>Properties of the perspective transform\<close>

lemma floor_sqrt_eq:
  assumes "0 \<le> k" and "(of_int k)\<^sup>2 \<le> x" and "x < (of_int k + 1)\<^sup>2"
  shows "\<lfloor>sqrt x\<rfloor> = k"
proof -
  have lo: "of_int k \<le> sqrt x"
    using assms(2) by (rule real_le_rsqrt)
  have "0 \<le> x" using assms(2) zero_le_power2 [of "of_int k :: real"] by linarith
  moreover have "0 \<le> (of_int k + 1 :: real)" using assms(1) by simp
  ultimately have hi: "sqrt x < of_int k + 1"
    using assms(3) by (intro real_less_lsqrt) auto
  from lo hi show ?thesis by (simp add: floor_eq_iff)
qed

lemma py_int_nonneg: "0 \<le> x \<Longrightarrow> py_int x = \<lfloor>x\<rfloor>"
  by (simp add: py_int_def)



text \<open>Arrays and the store.\<close>

lemma length_le_buffer_width: "r \<in> set b \<Longrightarrow> length r \<le> buffer_width b"
  by (induction b) auto

lemma read_fresh: "s ! n = b \<Longrightarrow> read s (fresh_array n b) = b"
  by (simp add: read_def fresh_array_def map_idI length_le_buffer_width)

lemma base_fresh: "base (fresh_array n b) = n"
  by (simp add: fresh_array_def)

lemma shape_fresh: "shape (fresh_array n b) = (int (length b), int (buffer_width b))"
  by (simp add: fresh_array_def shape_def)

lemma cv_call_eq:
  "cv_call f a s = (fresh_array (length s) (f (read s a)), s @ [f (read s a)])"
  by (simp add: cv_call_def alloc_def)

lemma buffer_width_replicate: "buffer_width (replicate n r) = (if n = 0 then 0 else length r)"
  by (induction n) auto

lemma toy_honours_dsize: "honours_dsize (toy_cv2 contours_of lines_of)"
  by (auto simp: honours_dsize_def toy_cv2_def canvas_def buffer_width_replicate)

lemma four_point_transform_eq:
  assumes "order_points pts = Inr R" and "target_size R = (w, h)"
  shows "four_point_transform cv img pts s =
     Inr (cv_call (\<lambda>b. warpPerspective cv b (getPerspectiveTransform cv R (dst_rect w h)) (w, h)) img s)"
  using assms by (simp add: four_point_transform_def)

lemma shape_warp:
  assumes "honours_dsize cv" and "0 < w" and "0 < h"
  shows "shape (fst (cv_call (\<lambda>b. warpPerspective cv b M (w, h)) img s)) = (h, w)"
  using assms by (simp add: cv_call_eq shape_fresh honours_dsize_def)




text \<open>The end-to-end scenario of the specification.\<close>

lemma target_size_end_to_end:
  "target_size ((100, 50), (900, 80), (880, 750), (120, 720)) = (800, 670)"
proof -
  have a: "\<lfloor>sqrt 578500\<rfloor> = 760" by (rule floor_sqrt_eq) simp_all
  have b: "\<lfloor>sqrt 640900\<rfloor> = 800" by (rule floor_sqrt_eq) simp_all
  have c: "\<lfloor>sqrt 449300\<rfloor> = 670" by (rule floor_sqrt_eq) simp_all
  show ?thesis by (simp add: target_size_def py_int_nonneg a b c)
qed

lemma order_points_end_to_end:
  "order_points [(100, 50), (900, 80), (880, 750), (120, 720)]
     = Inr ((100, 50), (900, 80), (880, 750), (120, 720))"
  by (simp add: order_points_def coord_sum_def coord_diff_def)

text \<open>
  C7, as stated, fails on the width. The corners are ordered as the claim says, but the two
  horizontal edges have the lengths \<open>sqrt 578500\<close> and \<open>sqrt 640900\<close>, about 760.6 and
  800.6, and the width computed is their maximum truncated, 800: it is 20 away from 780 (which
  is about the mean of the two lengths, not their maximum).
\<close>

theorem end_to_end_width_counterexample:
  "order_points [(100, 50), (900, 80), (880, 750), (120, 720)]
     = Inr ((100, 50), (900, 80), (880, 750), (120, 720)) \<and>
   fst (target_size ((100, 50), (900, 80), (880, 750), (120, 720))) = 800 \<and>
   \<not> \<bar>fst (target_size ((100, 50), (900, 80), (880, 750), (120, 720))) - 780\<bar> < 20"
  by (simp add: target_size_end_to_end order_points_end_to_end)

text \<open>
  C7, amended: for the corners \<open>(100, 50), (900, 80), (880, 750), (120, 720)\<close>,
  \<open>order_points\<close> assigns \<open>tl = (100, 50)\<close>, \<open>tr = (900, 80)\<close>, \<open>br = (880, 750)\<close>,
  \<open>bl = (120, 720)\<close>, and \<open>four_point_transform\<close> asks for an image of width 800 and height
  670, which the output has when the library gives the output the size it is asked for.
\<close>

theorem end_to_end_quadrilateral:
  "order_points [(100, 50), (900, 80), (880, 750), (120, 720)]
     = Inr ((100, 50), (900, 80), (880, 750), (120, 720)) \<and>
   target_size ((100, 50), (900, 80), (880, 750), (120, 720)) = (800, 670) \<and>
   (\<exists>warped s'.
      four_point_transform cv img [(100, 50), (900, 80), (880, 750), (120, 720)] s
        = Inr (warped, s') \<and>
      (warped, s') =
        cv_call (\<lambda>b. warpPerspective cv b
          (getPerspectiveTransform cv ((100, 50), (900, 80), (880, 750), (120, 720))
             (dst_rect 800 670)) (800, 670)) img s \<and>
      (honours_dsize cv \<longrightarrow> shape warped = (670, 800)))"
proof -
  let ?R = "((100, 50), (900, 80), (880, 750), (120, 720)) :: rect"
  let ?call = "cv_call (\<lambda>b. warpPerspective cv b
          (getPerspectiveTransform cv ?R (dst_rect 800 670)) (800, 670)) img s"
  have fpt: "four_point_transform cv img [(100, 50), (900, 80), (880, 750), (120, 720)] s
      = Inr ?call"
    using order_points_end_to_end target_size_end_to_end by (rule four_point_transform_eq)
  have sh: "shape (fst ?call) = (670, 800)" if "honours_dsize cv"
    using that by (intro shape_warp) auto
  show ?thesis
    apply (intro conjI order_points_end_to_end target_size_end_to_end)
    apply (rule exI [of _ "fst ?call"], rule exI [of _ "snd ?call"])
    using fpt sh by simp
qed

theorem end_to_end_quadrilateral_witness:
  "honours_dsize (toy_cv2 (\<lambda>b. []) (\<lambda>b. None)) \<and>
   (\<exists>warped s'.
      four_point_transform (toy_cv2 (\<lambda>b. []) (\<lambda>b. None)) (fresh_array 0 (canvas 800 1000))
        [(100, 50), (900, 80), (880, 750), (120, 720)] [canvas 800 1000] = Inr (warped, s') \<and>
      shape warped = (670, 800))"
  using end_to_end_quadrilateral [of "toy_cv2 (\<lambda>b. []) (\<lambda>b. None)"
      "fresh_array 0 (canvas 800 1000)" "[canvas 800 1000]"]
    toy_honours_dsize [of "\<lambda>b. []" "\<lambda>b. None"]
  by fastforce

section \<open>Properties of the contour selection\<close>

lemma find_document_contour_find:
  "find_document_contour cv cs = map_option (approx_of cv) (find (qualifies cv) cs)"
  by (induction cs) (simp_all add: Let_def qualifies_def approx_of_def)

lemma find_document_contour_length:
  "find_document_contour cv cs = Some a \<Longrightarrow> length a = 4"
  by (induction cs) (auto simp: Let_def split: if_splits)

lemma find_only:
  assumes "c \<in> set xs" and "P c" and "\<forall>c' \<in> set xs. c' \<noteq> c \<longrightarrow> \<not> P c'"
  shows "find P xs = Some c"
proof (cases "find P xs")
  case None
  with assms(1,2) show ?thesis by (auto simp: find_None_iff)
next
  case (Some d)
  then have "P d" and "d \<in> set xs" by (auto simp: find_Some_iff)
  with assms(3) have "d = c" by auto
  with Some show ?thesis by simp
qed

lemma sort_contours_descending:
  "sorted_wrt (\<lambda>a b. contourArea cv a \<ge> contourArea cv b) (sort_contours cv cs)"
proof -
  have "sorted (map (\<lambda>c. - contourArea cv c) (sort_contours cv cs))"
    by (simp add: sort_contours_def)
  then show ?thesis
    by (simp add: sorted_wrt_map)
qed

text \<open>
  C5: the loop accepts the first contour, in descending order of area, whose approximation
  (tolerance 2 percent of its perimeter) has exactly 4 vertices and whose own area exceeds 10000.
  So when a candidate list holds one contour \<open>c\<close> that qualifies and otherwise contours that
  do not, the approximation of \<open>c\<close> is selected, in whatever order \<open>cs'\<close> the candidates come.
\<close>

theorem largest_quadrilateral_selected:
  assumes "c \<in> set cs" and "qualifies cv c"
    and "\<forall>c' \<in> set cs. c' \<noteq> c \<longrightarrow> \<not> qualifies cv c'"
    and "mset cs' = mset cs"
  shows "find_document_contour cv (sort_contours cv cs') = Some (approx_of cv c) \<and>
    mset (sort_contours cv cs') = mset cs \<and>
    sorted_wrt (\<lambda>a b. contourArea cv a \<ge> contourArea cv b) (sort_contours cv cs') \<and>
    find_document_contour cv (sort_contours cv cs')
      = map_option (approx_of cv) (find (qualifies cv) (sort_contours cv cs'))"
proof -
  have m: "mset (sort_contours cv cs') = mset cs"
    using assms(4) by (simp add: sort_contours_def)
  then have st: "set (sort_contours cv cs') = set cs"
    by (rule mset_eq_setD)
  have "find (qualifies cv) (sort_contours cv cs') = Some c"
    using assms(1-3) by (intro find_only) (simp_all add: st)
  then show ?thesis
    using m sort_contours_descending [of cv cs'] by (simp add: find_document_contour_find)
qed

theorem largest_quadrilateral_selected_witness:
  "[(0, 0), (200, 0), (200, 100), (0, 100) :: point]
      \<in> set [[(0, 0), (10, 0), (10, 10), (0, 10)], [(0, 0), (200, 0), (200, 100), (0, 100)],
              [(0, 0), (30, 0), (0, 30)]] \<and>
   qualifies (toy_cv2 (\<lambda>b. []) (\<lambda>b. None)) [(0, 0), (200, 0), (200, 100), (0, 100)] \<and>
   \<not> qualifies (toy_cv2 (\<lambda>b. []) (\<lambda>b. None)) [(0, 0), (10, 0), (10, 10), (0, 10)] \<and>
   \<not> qualifies (toy_cv2 (\<lambda>b. []) (\<lambda>b. None)) [(0, 0), (30, 0), (0, 30)] \<and>
   find_document_contour (toy_cv2 (\<lambda>b. []) (\<lambda>b. None))
     (sort_contours (toy_cv2 (\<lambda>b. []) (\<lambda>b. None))
        [[(0, 0), (30, 0), (0, 30)], [(0, 0), (10, 0), (10, 10), (0, 10)],
         [(0, 0), (200, 0), (200, 100), (0, 100)]])
     = Some [(0, 0), (200, 0), (200, 100), (0, 100)]"
proof -
  let ?cv = "toy_cv2 (\<lambda>b. []) (\<lambda>b. None)"
  let ?big = "[(0, 0), (200, 0), (200, 100), (0, 100)] :: point list"
  let ?small = "[(0, 0), (10, 0), (10, 10), (0, 10)] :: point list"
  let ?tri = "[(0, 0), (30, 0), (0, 30)] :: point list"
  have q: "qualifies ?cv ?big" "\<not> qualifies ?cv ?small" "\<not> qualifies ?cv ?tri"
    by (simp_all add: qualifies_def approx_of_def toy_cv2_def polygon_area_def)
  have a: "approx_of ?cv ?big = ?big"
    by (simp add: approx_of_def toy_cv2_def)
  have i: "?big \<in> set [?small, ?big, ?tri]" by simp
  have o: "\<forall>c' \<in> set [?small, ?big, ?tri]. c' \<noteq> ?big \<longrightarrow> \<not> qualifies ?cv c'"
    using q by simp
  have m: "mset [?tri, ?small, ?big] = mset [?small, ?big, ?tri]" by simp
  from largest_quadrilateral_selected [OF i q(1) o m] q i show ?thesis
    unfolding a by blast
qed

section \<open>Properties of the pipeline\<close>

text \<open>What the parts of the pipeline do to the store.\<close>

lemmas store_simps = cv_call_eq read_fresh base_fresh nth_append Let_def split_def

lemma contour_search_store:
  assumes "contour_search cv img s = ((original, dc), s1)"
  shows "take (length s) s1 = s" and "length s1 = length s + 8" and "s1 ! length s = read s img"
    and "original = \<lparr>base = length s, row0 = 0, row1 = row1 img - row0 img,
                      col0 = 0, col1 = col1 img - col0 img\<rparr>"
  using assms
  by (auto simp: contour_search_def store_simps np_copy_def)

lemma line_search_store:
  assumes "line_search cv img s = ((original, ls), s1)"
  shows "take (length s) s1 = s" and "length s1 = length s + 4" and "s1 ! length s = read s img"
    and "original = \<lparr>base = length s, row0 = 0, row1 = row1 img - row0 img,
                      col0 = 0, col1 = col1 img - col0 img\<rparr>"
  using assms
  by (auto simp: line_search_def store_simps np_copy_def)

lemma enhance_document_store:
  assumes "enhance_document cv img s = (res, s')"
  shows "take (length s) s' = s" and "length s' = length s + 4" and "base res = length s + 3"
  using assms
  by (auto simp: enhance_document_def store_simps)

lemma four_point_transform_total:
  assumes "pts \<noteq> []"
  shows "\<exists>R. order_points pts = Inr R \<and>
     four_point_transform cv img pts s =
       Inr (cv_call (\<lambda>b. warpPerspective cv b
              (getPerspectiveTransform cv R (dst_rect (fst (target_size R)) (snd (target_size R))))
              (target_size R)) img s)"
proof -
  from order_points_extremes [OF assms] obtain R where "order_points pts = Inr R" by blast
  then show ?thesis
    by (simp add: four_point_transform_def split_def Let_def)
qed

lemma four_point_transform_store:
  assumes "pts \<noteq> []"
  shows "\<exists>warped b. four_point_transform cv img pts s = Inr (warped, s @ [b]) \<and> base warped = length s"
  using four_point_transform_total [OF assms, of cv img s]
  by (auto simp: cv_call_eq base_fresh)


lemma padded_corners_nonempty: "padded_corners h w p \<noteq> []"
  by (simp add: padded_corners_def)

lemma base_np_slice: "base (np_slice a r0 r1 c0 c1) = base a"
  by (simp add: np_slice_def split_def Let_def)

lemma slice_bounds_inside:
  "0 \<le> lo \<Longrightarrow> lo \<le> hi \<Longrightarrow> hi \<le> int n \<Longrightarrow> slice_bounds n lo hi = (nat lo, nat hi)"
  by (auto simp: slice_bounds_def Let_def)

lemma shape_copy:
  "shape \<lparr>base = n, row0 = 0, row1 = row1 img - row0 img, col0 = 0, col1 = col1 img - col0 img\<rparr>
     = shape img"
  by (simp add: shape_def)

lemma read_cong: "s' ! base a = s ! base a \<Longrightarrow> read s' a = read s a"
  by (simp add: read_def)

lemma take_nth_eq: "take n s' = s \<Longrightarrow> i < length s \<Longrightarrow> s' ! i = s ! i"
  by auto

lemma take_take_store:
  assumes "take (length s) s1 = s" and "take (length s1) s2 = s1"
  shows "take (length s) s2 = s"
proof -
  have "length (take (length s) s1) = length s"
    using assms(1) by simp
  then have "length s \<le> length s1"
    by simp
  then have "take (length s) (take (length s1) s2) = take (length s) s2"
    by (simp add: min.absorb1)
  with assms show ?thesis by simp
qed

lemma alternative_cases:
  assumes ls: "line_search cv img s = ((original, lines), s1)"
    and hw: "shape img = (h, w)"
  shows "(\<exists>ls. lines = Some ls \<and> 4 \<le> length ls) \<and>
         (\<exists>warped b. detect_document_edges_alternative cv img s
            = Inr ((warped, padded_corners h w (min h w div 20)), s1 @ [b]) \<and>
            Inr (warped, s1 @ [b])
              = four_point_transform cv original (padded_corners h w (min h w div 20)) s1 \<and>
            base warped = length s1)
       \<or> \<not> (\<exists>ls. lines = Some ls \<and> 4 \<le> length ls) \<and>
         detect_document_edges_alternative cv img s
            = Inr ((np_slice img (min h w div 40) (h - min h w div 40)
                      (min h w div 40) (w - min h w div 40),
                    padded_corners h w (min h w div 40)), s1)"
proof (cases "\<exists>ls. lines = Some ls \<and> 4 \<le> length ls")
  case True
  from four_point_transform_store [OF padded_corners_nonempty, of cv original h w "min h w div 20" s1]
  obtain warped b where
    "four_point_transform cv original (padded_corners h w (min h w div 20)) s1 = Inr (warped, s1 @ [b])"
    "base warped = length s1" by blast
  with True ls hw show ?thesis
    by (auto simp: detect_document_edges_alternative_def)
next
  case False
  with ls hw show ?thesis
    by (auto simp: detect_document_edges_alternative_def Let_def split: option.splits)
qed

text \<open>The three ways \<open>detect_document_edges\<close> returns, and what it returns in each.\<close>

lemma detect_cases:
  assumes cs: "contour_search cv img s = ((original, dc), s1)"
    and ls: "line_search cv original s1 = ((original', lines), s2)"
    and hw: "shape img = (h, w)"
  shows "(\<exists>approx warped b. dc = Some approx \<and> length approx = 4 \<and>
            source_method cv img s = ContourMatch \<and>
            detect_document_edges cv img s = Inr ((warped, approx), s1 @ [b]) \<and>
            four_point_transform cv original approx s1 = Inr (warped, s1 @ [b]) \<and>
            base warped = length s1)
       \<or> (\<exists>warped b. dc = None \<and> source_method cv img s = LineEstimate \<and>
            detect_document_edges cv img s
              = Inr ((warped, padded_corners h w (min h w div 20)), s2 @ [b]) \<and>
            four_point_transform cv original' (padded_corners h w (min h w div 20)) s2
              = Inr (warped, s2 @ [b]) \<and>
            base warped = length s2)
       \<or> (dc = None \<and> source_method cv img s = PaddedFallback \<and>
            detect_document_edges cv img s
              = Inr ((np_slice original (min h w div 40) (h - min h w div 40)
                        (min h w div 40) (w - min h w div 40),
                      padded_corners h w (min h w div 40)), s2))"
proof (cases dc)
  case (Some approx)
  from cs Some have len: "length approx = 4"
    by (auto simp: contour_search_def Let_def split_def dest: find_document_contour_length)
  then have "approx \<noteq> []" by auto
  from four_point_transform_store [OF this, of cv original s1] obtain warped b where
    "four_point_transform cv original approx s1 = Inr (warped, s1 @ [b])" "base warped = length s1"
    by blast
  with cs Some len show ?thesis
    by (simp add: detect_document_edges_def source_method_def)
next
  case None
  have sh: "shape original = (h, w)"
    using contour_search_store(4) [OF cs] hw by (simp add: shape_copy)
  from alternative_cases [OF ls sh] cs ls None show ?thesis
    by (auto simp: detect_document_edges_def source_method_def split: option.splits)
qed

text \<open>The last fallback on an image of 500 by 500 pixels.\<close>

lemma padded_fallback_500:
  assumes hw: "shape img = (500, 500)"
    and sm: "source_method cv img s = PaddedFallback"
  shows "\<exists>cropped s'.
      detect_document_edges cv img s
        = Inr ((cropped, [(12, 12), (488, 12), (488, 488), (12, 488)]), s') \<and>
      shape cropped = (476, 476) \<and>
      read s' cropped = map (\<lambda>r. take 476 (drop 12 r)) (take 476 (drop 12 (read s img)))"
proof -
  obtain original dc s1 where cs: "contour_search cv img s = ((original, dc), s1)"
    by (metis prod.exhaust)
  obtain original' lines s2 where ls: "line_search cv original s1 = ((original', lines), s2)"
    by (metis prod.exhaust)
  note c = contour_search_store [OF cs] and l = line_search_store [OF ls]
  let ?cropped = "np_slice original 12 488 12 488"
  from detect_cases [OF cs ls hw] sm
  have d: "detect_document_edges cv img s
      = Inr ((?cropped, padded_corners 500 500 12), s2)"
    by auto
  have o: "original = \<lparr>base = length s, row0 = 0, row1 = 500, col0 = 0, col1 = 500\<rparr>"
    using c(4) hw by (simp add: shape_def)
  have cr: "?cropped = \<lparr>base = length s, row0 = 12, row1 = 488, col0 = 12, col1 = 488\<rparr>"
    by (simp add: o np_slice_def slice_bounds_inside)
  have "s2 ! length s = s1 ! length s"
    using l(1) c(2) by (intro take_nth_eq [of "length s1" s2 s1]) simp_all
  then have "s2 ! length s = read s img"
    using c(3) by simp
  then have rd: "read s2 ?cropped = map (\<lambda>r. take 476 (drop 12 r)) (take 476 (drop 12 (read s img)))"
    by (simp add: cr read_def)
  have pc: "padded_corners 500 500 12 = [(12, 12), (488, 12), (488, 488), (12, 488)]"
    by (simp add: padded_corners_def)
  from d rd show ?thesis
    by (simp add: pc cr shape_def)
qed



lemma toy_blank_method:
  "source_method (toy_cv2 (\<lambda>b. []) (\<lambda>b. None)) (fresh_array 0 G) [G] = PaddedFallback"
  by (simp add: source_method_def contour_search_def line_search_def store_simps np_copy_def
      toy_cv2_def sort_contours_def)

lemma order_points_collinear:
  "order_points [(0, 0), (1, 0), (2, 0), (3, 0)] = Inr ((0, 0), (3, 0), (3, 0), (0, 0))"
  by (simp add: order_points_def coord_sum_def coord_diff_def)

lemma target_size_collinear: "target_size ((0, 0), (3, 0), (3, 0), (0, 0)) = (3, 0)"
proof -
  have "\<lfloor>sqrt 9\<rfloor> = 3" by (rule floor_sqrt_eq) simp_all
  then show ?thesis by (simp add: target_size_def py_int_nonneg)
qed







subsection \<open>Degenerate quadrilaterals\<close>

text \<open>
  C2, as stated, fails: \<open>four_point_transform\<close> has no guard and no fallback. The collinear
  points \<open>(0, 0), (1, 0), (2, 0), (3, 0)\<close> give the target size \<open>(3, 0)\<close> and the destination
  corners \<open>(0, 0), (2, 0), (2, -1), (0, -1)\<close>, and these go to \<open>cv2.warpPerspective\<close> as
  they are. On an image whose pixels are all 7 the small instance of the library answers with
  its black canvas, which is what \<open>four_point_transform\<close> returns: the image returned is the
  library's output, and neither the input nor a crop of it.
\<close>

theorem degenerate_quadrilateral_counterexample:
  "order_points [(0, 0), (1, 0), (2, 0), (3, 0)] = Inr ((0, 0), (3, 0), (3, 0), (0, 0)) \<and>
   target_size ((0, 0), (3, 0), (3, 0), (0, 0)) = (3, 0) \<and>
   four_point_transform (toy_cv2 (\<lambda>b. []) (\<lambda>b. None))
     (fresh_array 0 (replicate 4 (replicate 4 (7::nat)))) [(0, 0), (1, 0), (2, 0), (3, 0)]
     [replicate 4 (replicate 4 7)]
     = Inr (cv_call (\<lambda>b. warpPerspective (toy_cv2 (\<lambda>b. []) (\<lambda>b. None)) b
              (((0, 0), (3, 0), (3, 0), (0, 0)), ((0, 0), (2, 0), (2, - 1), (0, - 1))) (3, 0))
            (fresh_array 0 (replicate 4 (replicate 4 (7::nat)))) [replicate 4 (replicate 4 7)]) \<and>
   four_point_transform (toy_cv2 (\<lambda>b. []) (\<lambda>b. None))
     (fresh_array 0 (replicate 4 (replicate 4 (7::nat)))) [(0, 0), (1, 0), (2, 0), (3, 0)]
     [replicate 4 (replicate 4 7)]
     = Inr (fresh_array 1 (replicate 4 (replicate 4 (0::nat))),
            [replicate 4 (replicate 4 7), replicate 4 (replicate 4 0)]) \<and>
   replicate 4 (replicate 4 (0::nat)) \<noteq> replicate 4 (replicate 4 7)"
proof -
  let ?cv = "toy_cv2 (\<lambda>b. []) (\<lambda>b. None)"
  have g: "getPerspectiveTransform ?cv ((0, 0), (3, 0), (3, 0), (0, 0)) (dst_rect 3 0)
      = (((0, 0), (3, 0), (3, 0), (0, 0)), ((0, 0), (2, 0), (2, - 1), (0, - 1)))"
    by (simp add: toy_cv2_def dst_rect_def)
  have w: "warpPerspective ?cv b M (3, 0) = canvas (length b) (buffer_width b)" for b M
    by (simp add: toy_cv2_def)
  note f = four_point_transform_eq [OF order_points_collinear target_size_collinear, of ?cv,
      unfolded g]
  show ?thesis
    by (simp add: order_points_collinear target_size_collinear f)
      (simp add: cv_call_eq read_fresh w canvas_def buffer_width_replicate)
qed

text \<open>
  C2, amended: when \<open>four_point_transform\<close> is given a degenerate quadrilateral, one whose
  computed width or height is zero, it raises nothing and applies no guard: it passes the
  computed size, zero as it is, and the destination corners made from it to
  \<open>cv2.warpPerspective\<close> and returns the image the library returns; it substitutes no
  fallback crop.
\<close>

theorem degenerate_quadrilateral_still_warped:
  assumes "order_points pts = Inr R"
    and "target_size R = (w, h)"
    and "w = 0 \<or> h = 0"
  shows "four_point_transform cv img pts s =
     Inr (cv_call (\<lambda>b. warpPerspective cv b (getPerspectiveTransform cv R (dst_rect w h)) (w, h))
            img s)"
  using assms(1,2) by (rule four_point_transform_eq)

theorem degenerate_quadrilateral_still_warped_witness:
  "order_points [(2, 1), (2, 1), (2, 5), (2, 9)] = Inr ((2, 1), (2, 1), (2, 9), (2, 9)) \<and>
   target_size ((2, 1), (2, 1), (2, 9), (2, 9)) = (0, 8) \<and>
   four_point_transform (toy_cv2 (\<lambda>b. []) (\<lambda>b. None)) (fresh_array 0 (canvas 10 10))
     [(2, 1), (2, 1), (2, 5), (2, 9)] [canvas 10 10] =
     Inr (cv_call (\<lambda>b. warpPerspective (toy_cv2 (\<lambda>b. []) (\<lambda>b. None)) b
           (getPerspectiveTransform (toy_cv2 (\<lambda>b. []) (\<lambda>b. None))
              ((2, 1), (2, 1), (2, 9), (2, 9)) (dst_rect 0 8)) (0, 8))
            (fresh_array 0 (canvas 10 10)) [canvas 10 10])"
proof -
  have o: "order_points [(2, 1), (2, 1), (2, 5), (2, 9)] = Inr ((2, 1), (2, 1), (2, 9), (2, 9))"
    by (simp add: order_points_def coord_sum_def coord_diff_def)
  have "\<lfloor>sqrt 64\<rfloor> = 8" by (rule floor_sqrt_eq) simp_all
  then have t: "target_size ((2, 1), (2, 1), (2, 9), (2, 9)) = (0, 8)"
    by (simp add: target_size_def py_int_nonneg)
  have d: "(0::int) = 0 \<or> (8::int) = 0" by simp
  from degenerate_quadrilateral_still_warped [OF o t d] o t show ?thesis by blast
qed

subsection \<open>Detection always returns\<close>


subsection \<open>What the result holds\<close>



subsection \<open>The last fallback on 500 by 500 pixels\<close>

text \<open>
  C8, as stated, fails: \<open>500 - 12\<close> is 488. On a grey image of 500 by 500 pixels in which
  no contour and no line is found, the caller receives a crop of 476 by 476 pixels and the
  corners \<open>(12, 12), (488, 12), (488, 488), (12, 488)\<close>, and not a crop of 475 by 475 with
  the corners at 487.
\<close>

theorem padded_fallback_500_counterexample:
  "source_method (toy_cv2 (\<lambda>b. []) (\<lambda>b. None))
     (fresh_array 0 (replicate 500 (replicate 500 (128::nat)))) [replicate 500 (replicate 500 128)]
     = PaddedFallback \<and>
   returned (toy_cv2 (\<lambda>b. []) (\<lambda>b. None))
     (fresh_array 0 (replicate 500 (replicate 500 (128::nat)))) [replicate 500 (replicate 500 128)]
     = Some (replicate 476 (replicate 476 128), [(12, 12), (488, 12), (488, 488), (12, 488)]) \<and>
   returned (toy_cv2 (\<lambda>b. []) (\<lambda>b. None))
     (fresh_array 0 (replicate 500 (replicate 500 (128::nat)))) [replicate 500 (replicate 500 128)]
     \<noteq> Some (replicate 475 (replicate 475 128), [(12, 12), (487, 12), (487, 487), (12, 487)])"
proof -
  let ?cv = "toy_cv2 (\<lambda>b. []) (\<lambda>b. None)"
  let ?G = "replicate 500 (replicate 500 (128::nat))"
  have sh: "shape (fresh_array 0 ?G) = (500, 500)"
    by (simp add: shape_fresh buffer_width_replicate)
  have rd: "read [?G] (fresh_array 0 ?G) = ?G"
    by (simp add: read_fresh)
  from padded_fallback_500 [OF sh toy_blank_method]
  have "returned ?cv (fresh_array 0 ?G) [?G]
     = Some (replicate 476 (replicate 476 128), [(12, 12), (488, 12), (488, 488), (12, 488)])"
    unfolding rd by (auto simp: returned_def)
  with toy_blank_method [of ?G] show ?thesis by simp
qed

text \<open>
  C8, amended: for a 500 by 500 input in which contour detection and line detection both
  fail, the last fallback computes the padding \<open>500 div 40 = 12\<close> and returns a
  476 by 476 axis-aligned crop, rows and columns 12 to 487 of the input, whose reported corners
  are \<open>(12, 12), (488, 12), (488, 488), (12, 488)\<close>.
\<close>

theorem padded_fallback_500_result:
  assumes "shape img = (500, 500)"
    and "source_method cv img s = PaddedFallback"
  shows "min 500 500 div 40 = (12::int) \<and>
    (\<exists>cropped s'.
      detect_document_edges cv img s
        = Inr ((cropped, [(12, 12), (488, 12), (488, 488), (12, 488)]), s') \<and>
      shape cropped = (476, 476) \<and>
      read s' cropped = map (\<lambda>r. take 476 (drop 12 r)) (take 476 (drop 12 (read s img))))"
  using padded_fallback_500 [OF assms] by simp

theorem padded_fallback_500_result_witness:
  "shape (fresh_array 0 (replicate 500 (replicate 500 (0::nat)))) = (500, 500) \<and>
   source_method (toy_cv2 (\<lambda>b. []) (\<lambda>b. None))
     (fresh_array 0 (replicate 500 (replicate 500 (0::nat)))) [replicate 500 (replicate 500 0)]
     = PaddedFallback \<and>
   (\<exists>cropped s'.
      detect_document_edges (toy_cv2 (\<lambda>b. []) (\<lambda>b. None))
        (fresh_array 0 (replicate 500 (replicate 500 (0::nat)))) [replicate 500 (replicate 500 0)]
        = Inr ((cropped, [(12, 12), (488, 12), (488, 488), (12, 488)]), s') \<and>
      shape cropped = (476, 476))"
proof -
  let ?G = "replicate 500 (replicate 500 (0::nat))"
  have sh: "shape (fresh_array 0 ?G) = (500, 500)"
    by (simp add: shape_fresh buffer_width_replicate)
  from padded_fallback_500_result [OF sh toy_blank_method] sh toy_blank_method [of ?G]
  show ?thesis by blast
qed

subsection \<open>The input buffer\<close>

text \<open>
  Called on its own, the last fallback returns a view on the buffer of its argument;
  \<open>detect_document_edges\<close> passes it the copy it made.
\<close>

lemma alternative_crop_shares_buffer:
  assumes "line_search cv img s = ((original, lines), s1)"
    and "\<not> (\<exists>ls. lines = Some ls \<and> 4 \<le> length ls)"
  shows "\<exists>cropped corners.
      detect_document_edges_alternative cv img s = Inr ((cropped, corners), s1) \<and>
      base cropped = base img"
proof -
  obtain h w where hw: "shape img = (h, w)"
    by (metis prod.exhaust)
  from alternative_cases [OF assms(1) hw] assms(2) show ?thesis
    by (auto simp: base_np_slice)
qed

text \<open>
  C9: let \<open>img\<close> be an array of the store \<open>s\<close>. After \<open>detect_document_edges\<close>, whichever
  branch it takes, and after \<open>enhance_document\<close>, every buffer of \<open>s\<close> is in the new store
  as it was, so \<open>img\<close> shows the same pixels, and the image returned lies in a buffer that the
  call allocated.
\<close>

theorem pipeline_leaves_input_buffer:
  assumes "base img < length s"
  shows "(\<exists>res corners s'. detect_document_edges cv img s = Inr ((res, corners), s') \<and>
            take (length s) s' = s \<and> read s' img = read s img \<and>
            length s \<le> base res \<and> base res < length s') \<and>
         (\<exists>res s'. enhance_document cv img s = (res, s') \<and>
            take (length s) s' = s \<and> read s' img = read s img \<and>
            length s \<le> base res \<and> base res < length s')"
proof
  obtain original dc s1 where cs: "contour_search cv img s = ((original, dc), s1)"
    by (metis prod.exhaust)
  obtain original' lines s2 where ls: "line_search cv original s1 = ((original', lines), s2)"
    by (metis prod.exhaust)
  obtain h w where hw: "shape img = (h, w)"
    by (metis prod.exhaust)
  note c = contour_search_store [OF cs] and l = line_search_store [OF ls]
  have t2: "take (length s) s2 = s"
    using c(1) l(1) by (rule take_take_store)
  have bo: "base original = length s"
    using c(4) by simp
  have frame: "read s' img = read s img" if "take (length s) s' = s" for s' :: "'a store"
    using take_nth_eq [OF that assms] by (rule read_cong)
  from detect_cases [OF cs ls hw]
  consider (contour) approx warped b where
      "detect_document_edges cv img s = Inr ((warped, approx), s1 @ [b])" "base warped = length s1"
    | (lines) warped b where
      "detect_document_edges cv img s
         = Inr ((warped, padded_corners h w (min h w div 20)), s2 @ [b])" "base warped = length s2"
    | (crop) "detect_document_edges cv img s
         = Inr ((np_slice original (min h w div 40) (h - min h w div 40)
                        (min h w div 40) (w - min h w div 40),
                      padded_corners h w (min h w div 40)), s2)"
    by blast
  then show "\<exists>res corners s'. detect_document_edges cv img s = Inr ((res, corners), s') \<and>
            take (length s) s' = s \<and> read s' img = read s img \<and>
            length s \<le> base res \<and> base res < length s'"
  proof cases
    case contour
    have "take (length s) (s1 @ [b]) = s" using c(1,2) by simp
    with contour c(2) frame [of "s1 @ [b]"] show ?thesis by simp
  next
    case lines
    have "take (length s) (s2 @ [b]) = s" using t2 c(2) l(2) by simp
    with lines c(2) l(2) frame [of "s2 @ [b]"] show ?thesis by simp
  next
    case crop
    with t2 c(2) l(2) bo frame [of s2] show ?thesis by (simp add: base_np_slice)
  qed
next
  obtain res s' where e: "enhance_document cv img s = (res, s')"
    by (metis prod.exhaust)
  note s = enhance_document_store [OF e]
  have "read s' img = read s img"
    using take_nth_eq [OF s(1) assms] by (rule read_cong)
  with e s show "\<exists>res s'. enhance_document cv img s = (res, s') \<and>
            take (length s) s' = s \<and> read s' img = read s img \<and>
            length s \<le> base res \<and> base res < length s'"
    by simp
qed

theorem pipeline_leaves_input_buffer_witness:
  "base (fresh_array 0 (canvas 4 4)) < length [canvas 4 4] \<and>
   (\<exists>res corners s'.
      detect_document_edges (toy_cv2 (\<lambda>b. []) (\<lambda>b. None)) (fresh_array 0 (canvas 4 4))
        [canvas 4 4] = Inr ((res, corners), s') \<and>
      take (length [canvas 4 4]) s' = [canvas 4 4] \<and>
      length [canvas 4 4] \<le> base res \<and> base res < length s') \<and>
   (\<exists>res s'.
      enhance_document (toy_cv2 (\<lambda>b. []) (\<lambda>b. None)) (fresh_array 0 (canvas 4 4))
        [canvas 4 4] = (res, s') \<and>
      take (length [canvas 4 4]) s' = [canvas 4 4] \<and>
      length [canvas 4 4] \<le> base res \<and> base res < length s')"
proof -
  have b: "base (fresh_array 0 (canvas 4 4)) < length [canvas 4 4]"
    by (simp add: base_fresh)
  from pipeline_leaves_input_buffer [OF b, of "toy_cv2 (\<lambda>b. []) (\<lambda>b. None)"] b
  show ?thesis by blast
qed

end
